theory Spec2Isabelle
  imports Main "HOL-Library.Word" "HOL-Library.Signed_Division"
begin

unbundle bit_operations_syntax

section \<open>Packed error codes of HSE (src/util/src/hse_err.c)\<close>

subsection \<open>C types\<close>

text \<open>
  The target is a 64-bit platform: \<open>merr_t\<close>, \<open>u64\<close>, \<open>s64\<close>, \<open>ulong\<close>, \<open>size_t\<close> and
  pointers are 64-bit words, \<open>int\<close> and \<open>s32\<close> are 32-bit words.  A pointer is its
  address; pointer comparison is unsigned comparison of addresses and \<open>NULL\<close> is
  address 0.
\<close>

type_synonym merr_t = "64 word"
type_synonym ptr = "64 word"
type_synonym cint = "32 word"

subsection \<open>Constants of the header\<close>

text \<open>
  Modelled from the spec: the header \<open>hse_util/hse_err.h\<close> is not among the sources.
  It declares the bit layout of \<open>merr_t\<close> that the spec describes as a reserved bit, an
  errno field, a line field and a signed file-offset field, each at a fixed position:

    bits 63..48  signed offset of the file string from \<open>hse_merr_base\<close>, in units of
                 \<open>MERR_ALIGN\<close> bytes;
    bits 47..32  line number;
    bit  31      reserved bit;
    bits 30..0   positive errno value.

  \<open>MERR_ALIGN\<close> is the alignment of the strings in section \<open>hse_merr\<close>, and \<open>EBUG\<close> is
  the errno of a software defect.
\<close>

definition MERR_ALIGN :: "64 word" where "MERR_ALIGN = 64"
definition MERR_FILE_SHIFT :: nat where "MERR_FILE_SHIFT = 48"
definition MERR_LINE_SHIFT :: nat where "MERR_LINE_SHIFT = 32"
definition MERR_RSVD_SHIFT :: nat where "MERR_RSVD_SHIFT = 31"
definition MERR_FILE_MASK :: "64 word" where "MERR_FILE_MASK = 0xffff000000000000"
definition MERR_LINE_MASK :: "64 word" where "MERR_LINE_MASK = 0x0000ffff00000000"
definition MERR_RSVD_MASK :: "64 word" where "MERR_RSVD_MASK = 0x0000000080000000"
definition MERR_ERRNO_MASK :: "64 word" where "MERR_ERRNO_MASK = 0x000000007fffffff"
definition EBUG :: cint where "EBUG = 666"

text \<open>
  Modelled from the spec: the two inline decoders of the same header,
  \<open>merr_errno\<close> (the spec's \<open>errno_of\<close>) and \<open>merr_lineno\<close> (its line extractor),
  each masking its field out of the code and returning it as an \<open>int\<close>.
\<close>

definition merr_errno :: "merr_t \<Rightarrow> cint" where
  "merr_errno err = ucast (err AND MERR_ERRNO_MASK)"

definition merr_lineno :: "merr_t \<Rightarrow> cint" where
  "merr_lineno err = ucast (drop_bit MERR_LINE_SHIFT (err AND MERR_LINE_MASK))"

text \<open>\<open>PATH_MAX\<close> of \<open>limits.h\<close> on Linux.\<close>

definition PATH_MAX :: nat where "PATH_MAX = 4096"

text \<open>
  Modelled from the spec: the macro \<open>IS_ALIGNED(x, a)\<close> of the \<open>hse_util\<close> headers, which
  are not among the sources.  The spec asks for a pointer aligned to the word size
  and to the alignment unit: the low bits of \<open>x\<close> below the power of two \<open>a\<close> are
  clear.
\<close>

definition IS_ALIGNED :: "64 word \<Rightarrow> 64 word \<Rightarrow> bool" where
  "IS_ALIGNED x a = (x AND (a - 1) = 0)"

text \<open>Division of \<open>s64\<close> values in C truncates towards zero.\<close>

definition s64_div :: "64 word \<Rightarrow> 64 word \<Rightarrow> 64 word" where
  "s64_div a b = word_of_int (sint a sdiv sint b)"

subsection \<open>The string table and its symbols\<close>

text \<open>
  The addresses the linker gives to the five strings that \<open>hse_err.c\<close> places in
  section \<open>hse_merr\<close> and to the two markers \<open>__start_hse_merr\<close> and
  \<open>__stop_hse_merr\<close> of that section.
\<close>

record symbols =
  hse_merr_bug0 :: ptr
  hse_merr_bug1 :: ptr
  hse_merr_bug2 :: ptr
  hse_merr_bug3 :: ptr
  hse_merr_base :: ptr
  start_hse_merr :: ptr
  stop_hse_merr :: ptr

text \<open>Memory as the decoder reads it: the byte at each address.\<close>

type_synonym memory = "ptr \<Rightarrow> char"

abbreviation NUL :: char where "NUL \<equiv> CHR 0x00"

text \<open>
  The range test that \<open>merr_pack\<close> (lines 43-44) and \<open>merr_file\<close> (lines 80-81) both
  write: \<open>!(file > (char *)&__start_hse_merr || file < (char *)&__stop_hse_merr)\<close>.
\<close>

definition file_outside :: "symbols \<Rightarrow> ptr \<Rightarrow> bool" where
  "file_outside sy file = (\<not> (file > start_hse_merr sy \<or> file < stop_hse_merr sy))"

subsection \<open>merr_pack\<close>

text \<open>
  The code after label \<open>finish\<close>: the reserved bit, the line masked to its field and
  the errno masked to its field are or-ed into \<open>err\<close>.  \<open>(u64)line\<close> and the promotion
  of \<open>errnum\<close> to \<open>unsigned long\<close> sign-extend the \<open>int\<close>.
\<close>

definition merr_pack_finish :: "merr_t \<Rightarrow> cint \<Rightarrow> cint \<Rightarrow> merr_t" where
  "merr_pack_finish err errnum line =
     ((err OR push_bit MERR_RSVD_SHIFT 1)
        OR (push_bit MERR_LINE_SHIFT (scast line) AND MERR_LINE_MASK))
        OR (scast errnum AND MERR_ERRNO_MASK)"

text \<open>
  Lines 40-53, reached with a non-null \<open>file\<close>: the two alignment substitutions, the
  range test, the offset and its round trip through the file field.  The result is
  the value of \<open>err\<close> on arrival at \<open>finish\<close>.
\<close>

definition merr_pack_file :: "symbols \<Rightarrow> ptr \<Rightarrow> merr_t" where
  "merr_pack_file sy file =
     (let file1 = (if \<not> IS_ALIGNED file 8 then hse_merr_bug0 sy else file) in
      if file_outside sy file1 then 0
      else
        let file2 = (if \<not> IS_ALIGNED file1 MERR_ALIGN then hse_merr_bug1 sy else file1);
            off = s64_div (file2 - hse_merr_base sy) MERR_ALIGN
        in if signed_drop_bit MERR_FILE_SHIFT (push_bit MERR_FILE_SHIFT off) = off
           then push_bit MERR_FILE_SHIFT off else 0)"

text \<open>
  \<open>merr_pack(errnum, file, line)\<close>.  The negation of \<open>INT_MIN\<close> wraps, as the
  compiled code does.
\<close>

definition merr_pack :: "symbols \<Rightarrow> cint \<Rightarrow> ptr \<Rightarrow> cint \<Rightarrow> merr_t" where
  "merr_pack sy errnum file line =
     (if errnum = 0 then 0
      else
        let errnum1 = (if errnum <s 0 then - errnum else errnum) in
        if file = 0 then merr_pack_finish 0 errnum1 line
        else merr_pack_finish (merr_pack_file sy file) errnum1 line)"

subsection \<open>merr_file\<close>

text \<open>\<open>isprint\<close> in the C locale: the bytes 0x20 to 0x7e.\<close>

definition isprint :: "char \<Rightarrow> bool" where
  "isprint c = (32 \<le> (of_char c :: nat) \<and> (of_char c :: nat) \<le> 126)"

text \<open>\<open>strnlen(s, maxlen)\<close>: the number of bytes before the first NUL, at most \<open>maxlen\<close>.\<close>

fun strnlen :: "memory \<Rightarrow> ptr \<Rightarrow> nat \<Rightarrow> nat" where
  "strnlen mem s 0 = 0"
| "strnlen mem s (Suc n) = (if mem s = NUL then 0 else Suc (strnlen mem (s + 1) n))"

text \<open>
  The loop of lines 90-96, \<open>for (slash = 0; len-- > 0; --file)\<close>, from the state
  \<open>(file, len, slash)\<close> at the loop test to the value returned.
\<close>

fun merr_file_scan :: "symbols \<Rightarrow> memory \<Rightarrow> ptr \<Rightarrow> nat \<Rightarrow> nat \<Rightarrow> ptr" where
  "merr_file_scan sy mem file 0 slash = file"
| "merr_file_scan sy mem file (Suc len) slash =
     (if mem file \<noteq> NUL \<and> \<not> isprint (mem file) then hse_merr_bug2 sy
      else if mem (file - 1) = CHR ''/'' then
        (if slash + 1 \<ge> 2 then file else merr_file_scan sy mem (file - 1) len (slash + 1))
      else merr_file_scan sy mem (file - 1) len slash)"

text \<open>
  Lines 74-82: the file field read as a signed value into the \<open>s32\<close> \<open>off\<close>, and the
  address of the string, replaced by \<open>hse_merr_bug3\<close> when the range test fires.
\<close>

definition merr_file_off :: "merr_t \<Rightarrow> cint" where
  "merr_file_off err = ucast (signed_drop_bit MERR_FILE_SHIFT (err AND MERR_FILE_MASK))"

definition merr_file_addr :: "symbols \<Rightarrow> cint \<Rightarrow> ptr" where
  "merr_file_addr sy off =
     (let file = hse_merr_base sy + scast (off * ucast MERR_ALIGN) in
      if file_outside sy file then hse_merr_bug3 sy else file)"

text \<open>
  \<open>merr_file(err)\<close>.  \<open>None\<close> is the \<open>NULL\<close> of lines 72 and 76; every other return
  is the address of a string.
\<close>

definition merr_file :: "symbols \<Rightarrow> memory \<Rightarrow> merr_t \<Rightarrow> ptr option" where
  "merr_file sy mem err =
     (if err = 0 \<or> err = - 1 then None
      else
        let off = merr_file_off err in
        if off = 0 then None
        else
          let file = merr_file_addr sy off;
              len = strnlen mem file PATH_MAX
          in Some (merr_file_scan sy mem (file + of_nat len) len 0))"

subsection \<open>Buffers and the C library\<close>

text \<open>
  A caller's buffer is the list of its cells, so its length is \<open>buf_sz\<close>.  The string
  that a buffer or a memory address holds is the bytes before the first NUL.
\<close>

definition c_str :: "char list \<Rightarrow> string" where
  "c_str buf = takeWhile (\<lambda>c. c \<noteq> NUL) buf"

text \<open>
  What \<open>strlcpy\<close> and \<open>snprintf\<close> do to the destination with a source string
  \<open>s\<close>: nothing when the size is 0, else as much of \<open>s\<close> as fits before a terminator.
\<close>

definition put_str :: "char list \<Rightarrow> string \<Rightarrow> char list" where
  "put_str buf s =
     (if buf = [] then buf
      else let k = min (length s) (length buf - 1) in take k s @ NUL # drop (k + 1) buf)"

text \<open>
  Modelled from the spec: \<open>strlcpy(dst, src, sz)\<close> of \<open>hse_util/string.h\<close>, which is not
  among the sources.  It copies as much as fits and returns the length of the
  source, the size the whole string needs without its terminator.
\<close>

definition strlcpy :: "char list \<Rightarrow> string \<Rightarrow> nat \<times> char list" where
  "strlcpy dst src = (length src, put_str dst src)"

text \<open>
  \<open>snprintf(buf, buf_sz, fmt, ...)\<close> with the formatted text \<open>s\<close>: returns the length
  of \<open>s\<close> as an \<open>int\<close>, or -1 when that length exceeds \<open>INT_MAX\<close>.
\<close>

definition snprintf :: "char list \<Rightarrow> string \<Rightarrow> cint \<times> char list" where
  "snprintf buf s = (if length s > 2147483647 then - 1 else of_nat (length s), put_str buf s)"

text \<open>The conversion \<open>%d\<close>.\<close>

fun dec :: "nat \<Rightarrow> string" where
  "dec n = (if n < 10 then [char_of (48 + n)] else dec (n div 10) @ [char_of (48 + n mod 10)])"

declare dec.simps [simp del]

definition fmt_d :: "cint \<Rightarrow> string" where
  "fmt_d i = (if sint i < 0 then CHR ''-'' # dec (nat (- sint i)) else dec (nat (sint i)))"

text \<open>
  The string at an address, as \<open>%s\<close> reads it.  The address space has \<open>2 ^ 64\<close> bytes,
  so the first NUL, if any, is found within that many steps.
\<close>

fun read_str :: "memory \<Rightarrow> ptr \<Rightarrow> nat \<Rightarrow> string" where
  "read_str mem p n =
     (if n = 0 then [] else if mem p = NUL then [] else mem p # read_str mem (p + 1) (n - 1))"

declare read_str.simps [simp del]

definition c_string :: "memory \<Rightarrow> ptr \<Rightarrow> string" where
  "c_string mem p = read_str mem p (2 ^ 64)"

subsection \<open>The platform\<close>

text \<open>
  What the formatter takes from outside \<open>hse_err.c\<close>: the platform's table of errno
  messages (\<open>None\<close> for an errno it does not know) and the text it leaves in the
  buffer for such an errno, whether \<open>malloc\<close> succeeds, and mpool's formatter.
\<close>

record platform =
  sys_errlist :: "cint \<Rightarrow> string option"
  unknown_error :: "cint \<Rightarrow> string"
  malloc_ok :: bool
  mpool_strinfo :: "merr_t \<Rightarrow> char list \<Rightarrow> char list"

definition EINVAL :: cint where "EINVAL = 22"
definition ERANGE :: cint where "ERANGE = 34"

text \<open>
  The XSI \<open>strerror_r(errnum, buf, buflen)\<close>, the one that returns an \<open>int\<close>: 0 when the
  message and its terminator fit, \<open>ERANGE\<close> when they do not, \<open>EINVAL\<close> for an unknown
  errno; the buffer holds what fits in each case.
\<close>

definition strerror_r :: "platform \<Rightarrow> cint \<Rightarrow> char list \<Rightarrow> cint \<times> char list" where
  "strerror_r pf errnum buf =
     (case sys_errlist pf errnum of
        None \<Rightarrow> (EINVAL, put_str buf (unknown_error pf errnum))
      | Some m \<Rightarrow> (if length buf \<le> length m then ERANGE else 0, put_str buf m))"

subsection \<open>merr_strerror\<close>

text \<open>
  \<open>merr_strerror(err, buf, buf_sz)\<close> returns the buffer, the \<open>size_t\<close> result and the
  calls of \<open>strerror_r\<close> it made, each with its errno and buffer size, in order.
  \<open>None\<close> is the failure of \<open>assert(rc == ERANGE)\<close>.  The scratch buffer of 1000
  bytes starts here as NULs; the code reads it only up to the terminator that
  \<open>strerror_r\<close> writes.
\<close>

definition merr_strerror ::
  "platform \<Rightarrow> merr_t \<Rightarrow> char list \<Rightarrow> (char list \<times> nat \<times> (cint \<times> nat) list) option" where
  "merr_strerror pf err buf =
     (let errnum = merr_errno err in
      if errnum = EBUG then
        (let (n, buf1) = strlcpy buf ''HSE software bug'' in Some (buf1, n, []))
      else
        let (rc, buf1) = strerror_r pf errnum buf;
            log1 = [(errnum, length buf)]
        in if rc = 0 then Some (buf1, 1 + length (c_str buf1), log1)
           else if rc = EINVAL then
             (let (n, buf2) = strlcpy buf1 ''<invalid error code>'' in Some (buf2, 1 + n, log1))
           else if rc \<noteq> ERANGE then None
           else if \<not> malloc_ok pf then
             (let (n, buf2) = strlcpy buf1 ''<error formating error message>''
              in Some (buf2, n, log1))
           else
             let (rc2, errbuf) = strerror_r pf errnum (replicate 1000 NUL);
                 (n, buf2) = strlcpy buf1 (c_str errbuf)
             in Some (buf2, 1 + n, log1 @ [(errnum, 1000)]))"

subsection \<open>merr_strinfo\<close>

text \<open>
  The result of \<open>merr_strinfo(err, buf, buf_sz, need_sz)\<close>: the buffer, the value
  stored through \<open>need_sz\<close> when that pointer is not null (\<open>None\<close> on the paths that
  store nothing), and the calls of \<open>strerror_r\<close>.
\<close>

record strinfo =
  out_buf :: "char list"
  need :: "64 word option"
  lookups :: "(cint \<times> nat) list"

text \<open>The text of \<open>"%s:%d: "\<close> for a file string and the line of the code.\<close>

definition merr_prefix :: "memory \<Rightarrow> ptr \<Rightarrow> merr_t \<Rightarrow> string" where
  "merr_prefix mem file err = c_string mem file @ '':'' @ fmt_d (merr_lineno err) @ '': ''"

text \<open>
  \<open>sz\<close> and \<open>off\<close> are \<open>int\<close>; \<open>sz >= buf_sz\<close> compares \<open>sz\<close> converted to
  \<open>size_t\<close> with the size of the buffer; \<open>sz + 200\<close> and \<open>off + sz\<close> are \<open>int\<close> sums,
  which wrap, converted to \<open>size_t\<close>.  \<open>None\<close> is the assertion failure inside
  \<open>merr_strerror\<close>.
\<close>

definition merr_strinfo ::
  "symbols \<Rightarrow> memory \<Rightarrow> platform \<Rightarrow> merr_t \<Rightarrow> char list \<Rightarrow> strinfo option" where
  "merr_strinfo sy mem pf err buf =
     (if err \<noteq> 0 then
        if err AND MERR_RSVD_MASK = 0 then
          Some \<lparr>out_buf = mpool_strinfo pf err buf, need = None, lookups = []\<rparr>
        else
          let (sz, buf1) =
                (case merr_file sy mem err of
                   None \<Rightarrow> (0, buf)
                 | Some file \<Rightarrow> snprintf buf (merr_prefix mem file err))
          in if sz <s 0 then
               (let (tmp_sz, buf2) = strlcpy buf1 ''<error formating error message>''
                in Some \<lparr>out_buf = buf2, need = Some (of_nat tmp_sz), lookups = []\<rparr>)
             else if unat (scast sz :: 64 word) \<ge> length buf then
               Some \<lparr>out_buf = buf1, need = Some (scast (sz + 200)), lookups = []\<rparr>
             else
               let off = sz in
               case merr_strerror pf err (drop (unat off) buf1) of
                 None \<Rightarrow> None
               | Some (rest, n, log) \<Rightarrow>
                   Some \<lparr>out_buf = take (unat off) buf1 @ rest,
                         need = Some (scast (off + of_nat n)), lookups = log\<rparr>
      else
        Some \<lparr>out_buf = snd (snprintf buf ''success''), need = None, lookups = []\<rparr>)"

subsection \<open>Unmapped memory\<close>

text \<open>
  The definitions above read memory as if every address were mapped.  The ones
  below take the set of mapped addresses as well, and a read outside it is the fault
  that ends the program: \<open>None\<close> for \<open>strnlen\<close>, the loop, \<open>merr_file\<close> and the \<open>%s\<close>
  of \<open>snprintf\<close>, \<open>Segfault\<close> for \<open>merr_strinfo\<close>.  The caller's buffer and the
  symbols are taken to be mapped.
\<close>

type_synonym mapping = "ptr \<Rightarrow> bool"

fun strnlen_mapped :: "mapping \<Rightarrow> memory \<Rightarrow> ptr \<Rightarrow> nat \<Rightarrow> nat option" where
  "strnlen_mapped mp mem s 0 = Some 0"
| "strnlen_mapped mp mem s (Suc n) =
     (if \<not> mp s then None
      else if mem s = NUL then Some 0
      else map_option Suc (strnlen_mapped mp mem (s + 1) n))"

text \<open>
  The loop of lines 90-96: line 91 reads \<open>*file\<close>, and line 94, reached when line 91
  does not return, reads \<open>file[-1]\<close>.
\<close>

fun merr_file_scan_mapped ::
  "symbols \<Rightarrow> mapping \<Rightarrow> memory \<Rightarrow> ptr \<Rightarrow> nat \<Rightarrow> nat \<Rightarrow> ptr option" where
  "merr_file_scan_mapped sy mp mem file 0 slash = Some file"
| "merr_file_scan_mapped sy mp mem file (Suc len) slash =
     (if \<not> mp file then None
      else if mem file \<noteq> NUL \<and> \<not> isprint (mem file) then Some (hse_merr_bug2 sy)
      else if \<not> mp (file - 1) then None
      else if mem (file - 1) = CHR ''/'' then
        (if slash + 1 \<ge> 2 then Some file
         else merr_file_scan_mapped sy mp mem (file - 1) len (slash + 1))
      else merr_file_scan_mapped sy mp mem (file - 1) len slash)"

text \<open>
  \<open>merr_file(err)\<close>: \<open>None\<close> is a fault, \<open>Some None\<close> the return of \<open>NULL\<close> and
  \<open>Some (Some p)\<close> the return of the address \<open>p\<close>.
\<close>

definition merr_file_mapped ::
  "symbols \<Rightarrow> mapping \<Rightarrow> memory \<Rightarrow> merr_t \<Rightarrow> ptr option option" where
  "merr_file_mapped sy mp mem err =
     (if err = 0 \<or> err = - 1 then Some None
      else
        let off = merr_file_off err in
        if off = 0 then Some None
        else
          let file = merr_file_addr sy off in
          case strnlen_mapped mp mem file PATH_MAX of
            None \<Rightarrow> None
          | Some len \<Rightarrow>
              map_option Some (merr_file_scan_mapped sy mp mem (file + of_nat len) len 0))"

fun read_str_mapped :: "mapping \<Rightarrow> memory \<Rightarrow> ptr \<Rightarrow> nat \<Rightarrow> string option" where
  "read_str_mapped mp mem p n =
     (if n = 0 then Some []
      else if \<not> mp p then None
      else if mem p = NUL then Some []
      else map_option ((#) (mem p)) (read_str_mapped mp mem (p + 1) (n - 1)))"

declare read_str_mapped.simps [simp del]

definition c_string_mapped :: "mapping \<Rightarrow> memory \<Rightarrow> ptr \<Rightarrow> string option" where
  "c_string_mapped mp mem p = read_str_mapped mp mem p (2 ^ 64)"

definition merr_prefix_mapped :: "mapping \<Rightarrow> memory \<Rightarrow> ptr \<Rightarrow> merr_t \<Rightarrow> string option" where
  "merr_prefix_mapped mp mem file err =
     map_option (\<lambda>s. s @ '':'' @ fmt_d (merr_lineno err) @ '': '') (c_string_mapped mp mem file)"

text \<open>
  How a call of \<open>merr_strinfo\<close> ends: with a fault, with the failure of the assertion
  in \<open>merr_strerror\<close>, or with a return.
\<close>

datatype outcome = Segfault | Abort | Returns strinfo

text \<open>
  \<open>merr_strinfo(err, buf, buf_sz, need_sz)\<close>.  The two calls of \<open>merr_file(err)\<close> on
  lines 152 and 153 make the same reads, so the second is not repeated here.
\<close>

definition merr_strinfo_mapped ::
  "symbols \<Rightarrow> mapping \<Rightarrow> memory \<Rightarrow> platform \<Rightarrow> merr_t \<Rightarrow> char list \<Rightarrow> outcome" where
  "merr_strinfo_mapped sy mp mem pf err buf =
     (if err \<noteq> 0 then
        if err AND MERR_RSVD_MASK = 0 then
          Returns \<lparr>out_buf = mpool_strinfo pf err buf, need = None, lookups = []\<rparr>
        else
          case merr_file_mapped sy mp mem err of
            None \<Rightarrow> Segfault
          | Some loc \<Rightarrow>
              (case (case loc of
                       None \<Rightarrow> Some (0, buf)
                     | Some file \<Rightarrow>
                         map_option (snprintf buf) (merr_prefix_mapped mp mem file err)) of
                 None \<Rightarrow> Segfault
               | Some (sz, buf1) \<Rightarrow>
                   if sz <s 0 then
                     (let (tmp_sz, buf2) = strlcpy buf1 ''<error formating error message>''
                      in Returns \<lparr>out_buf = buf2, need = Some (of_nat tmp_sz), lookups = []\<rparr>)
                   else if unat (scast sz :: 64 word) \<ge> length buf then
                     Returns \<lparr>out_buf = buf1, need = Some (scast (sz + 200)), lookups = []\<rparr>
                   else
                     let off = sz in
                     case merr_strerror pf err (drop (unat off) buf1) of
                       None \<Rightarrow> Abort
                     | Some (rest, n, log) \<Rightarrow>
                         Returns \<lparr>out_buf = take (unat off) buf1 @ rest,
                                  need = Some (scast (off + of_nat n)), lookups = log\<rparr>)
      else
        Returns \<lparr>out_buf = snd (snprintf buf ''success''), need = None, lookups = []\<rparr>)"



subsection \<open>Strings in memory\<close>

text \<open>The memory holds the string \<open>s\<close> and its terminator from address \<open>p\<close> on.\<close>

fun holds_str :: "memory \<Rightarrow> ptr \<Rightarrow> string \<Rightarrow> bool" where
  "holds_str mem p [] = (mem p = NUL)"
| "holds_str mem p (c # cs) = (c \<noteq> NUL \<and> mem p = c \<and> holds_str mem (p + 1) cs)"

subsection \<open>The path scan on lists\<close>

abbreviation SLASH :: char where "SLASH \<equiv> CHR ''/''"

text \<open>
  The spec's words for the result of the location decoder: the path reduced to at
  most its last two components, that is the part of the path after its last
  separator but one, or the whole path when it has fewer than two separators.
\<close>

definition last_two :: "string \<Rightarrow> string" where
  "last_two s =
     (case dropWhile (\<lambda>c. c \<noteq> SLASH) (rev s) of
        [] \<Rightarrow> s
      | sl # r \<Rightarrow> drop (length (dropWhile (\<lambda>c. c \<noteq> SLASH) r)) s)"

text \<open>
  The loop of \<open>merr_file\<close> again, on the bytes before \<open>file\<close> in reverse order and the
  byte \<open>cur\<close> at \<open>file\<close>: the index of the path at which it stops, or \<open>None\<close> where it
  returns \<open>hse_merr_bug2\<close>.  \<open>scan_stop\<close> is the index alone and \<open>byte_ok\<close> the
  test of line 91 passed.
\<close>

fun scan_back :: "char list \<Rightarrow> char \<Rightarrow> nat \<Rightarrow> nat option" where
  "scan_back [] cur k = Some 0"
| "scan_back (c # r) cur k =
     (if cur \<noteq> NUL \<and> \<not> isprint cur then None
      else if c = SLASH then (if k + 1 \<ge> 2 then Some (length (c # r)) else scan_back r c (k + 1))
      else scan_back r c k)"

fun scan_stop :: "nat \<Rightarrow> char list \<Rightarrow> nat" where
  "scan_stop k [] = 0"
| "scan_stop k (c # r) =
     (if c = SLASH then (if k + 1 \<ge> 2 then length (c # r) else scan_stop (k + 1) r)
      else scan_stop k r)"

definition byte_ok :: "char \<Rightarrow> bool" where
  "byte_ok c = (c = NUL \<or> isprint c)"

subsection \<open>An example image\<close>

text \<open>
  A layout of section \<open>hse_merr\<close> as the linker may produce it: the five strings of
  \<open>hse_err.c\<close> in declaration order, 64 bytes apart, at the start of a section of
  4096 bytes.
\<close>

definition example_symbols :: symbols where
  "example_symbols =
     \<lparr>hse_merr_bug0 = 0x1000, hse_merr_bug1 = 0x1040, hse_merr_bug2 = 0x1080,
      hse_merr_bug3 = 0x10c0, hse_merr_base = 0x1100,
      start_hse_merr = 0x1000, stop_hse_merr = 0x2000\<rparr>"

text \<open>A memory with the bytes of a string and its terminator written at an address.\<close>

fun poke :: "ptr \<Rightarrow> string \<Rightarrow> memory \<Rightarrow> memory" where
  "poke p [] mem = mem(p := NUL)"
| "poke p (c # cs) mem = poke (p + 1) cs (mem(p := c))"

text \<open>
  A memory that holds the path of \<open>hse_err.c\<close> in the slot after \<open>hse_merr_base\<close>, a
  platform that knows errno 5, and a memory whose path in that slot starts with the
  byte 0x01.
\<close>

definition example_memory :: memory where
  "example_memory = poke 0x1140 ''/src/util/src/hse_err.c'' (\<lambda>_. NUL)"

definition example_platform :: platform where
  "example_platform =
     \<lparr>sys_errlist = (\<lambda>e. if e = 5 then Some ''Input/output error'' else None),
      unknown_error = (\<lambda>e. ''Unknown error''),
      malloc_ok = True,
      mpool_strinfo = (\<lambda>err buf. buf)\<rparr>"

definition unprintable_memory :: memory where
  "unprintable_memory = poke 0x1140 [CHR 0x01, CHR ''b'', CHR ''.'', CHR ''c''] (\<lambda>_. NUL)"

text \<open>
  The mapping of the example image: the section \<open>hse_merr\<close> alone.  And an image in
  which the path in the slot after \<open>hse_merr_base\<close> has lost its terminator and runs
  on through 4 GiB of mapped bytes \<open>a\<close>, up to a NUL at address \<open>0x100000000\<close>.
\<close>

definition example_mapped :: mapping where
  "example_mapped a = (0x1000 \<le> a \<and> a < 0x2000)"



section \<open>Facts about the bit layout\<close>

lemma errno_mask: "MERR_ERRNO_MASK = mask 31"
  by (simp add: MERR_ERRNO_MASK_def mask_eq_exp_minus_1)

lemma line_mask: "MERR_LINE_MASK = push_bit 32 (mask 16)"
  by (simp add: MERR_LINE_MASK_def mask_eq_exp_minus_1 push_bit_eq_mult)

lemma file_mask: "MERR_FILE_MASK = push_bit 48 (mask 16)"
  by (simp add: MERR_FILE_MASK_def mask_eq_exp_minus_1 push_bit_eq_mult)

lemma bit_rsvd: "bit (2 ^ MERR_RSVD_SHIFT :: 64 word) n \<longleftrightarrow> n = 31"
  unfolding MERR_RSVD_SHIFT_def bit_exp_iff by auto

lemma bit_rsvd_mask: "bit MERR_RSVD_MASK n \<longleftrightarrow> n = 31"
proof -
  have e: "MERR_RSVD_MASK = 2 ^ MERR_RSVD_SHIFT"
    by (simp add: MERR_RSVD_MASK_def MERR_RSVD_SHIFT_def)
  show ?thesis unfolding e by (rule bit_rsvd)
qed

lemma bit_errno_mask: "bit MERR_ERRNO_MASK n \<longleftrightarrow> n < 31"
  unfolding errno_mask by (auto simp add: bit_simps)

lemma bit_line_mask: "bit MERR_LINE_MASK n \<longleftrightarrow> 32 \<le> n \<and> n < 48"
  unfolding line_mask by (auto simp add: bit_simps)

lemma bit_file_mask: "bit MERR_FILE_MASK n \<longleftrightarrow> 48 \<le> n \<and> n < 64"
  unfolding file_mask by (auto simp add: bit_simps)

lemma bit_finish:
  "bit (merr_pack_finish err e l) n \<longleftrightarrow>
     n < 64 \<and> (bit err n \<or> n = 31 \<or> (32 \<le> n \<and> n < 48 \<and> bit l (n - 32)) \<or> (n < 31 \<and> bit e n))"
  unfolding merr_pack_finish_def MERR_LINE_SHIFT_def
  by (auto simp add: bit_or_iff bit_and_iff bit_push_bit_iff bit_word_scast_iff bit_rsvd bit_errno_mask bit_line_mask dest: bit_imp_le_length)


lemma finish_rsvd: "merr_pack_finish err e l AND MERR_RSVD_MASK \<noteq> 0"
proof
  assume "merr_pack_finish err e l AND MERR_RSVD_MASK = 0"
  then have "bit (merr_pack_finish err e l AND MERR_RSVD_MASK) 31 = bit (0::64 word) 31" by simp
  then show False by (simp add: bit_and_iff bit_finish bit_rsvd_mask)
qed

lemma finish_file: "merr_pack_finish err e l AND MERR_FILE_MASK = err AND MERR_FILE_MASK"
  by (rule bit_word_eqI) (auto simp add: bit_and_iff bit_finish bit_file_mask)

lemma nonneg_no_msb: "0 \<le> sint e \<Longrightarrow> \<not> bit e 31" for e :: cint
  using bit_last_iff [of e] by simp

lemma small_no_high_bit:
  fixes l :: cint
  assumes "0 \<le> sint l" "sint l < 2 ^ m" "m \<le> k"
  shows "\<not> bit l k"
proof
  assume "bit l k"
  then have "bit (sint l) k" by (simp add: bit_sint_iff)
  moreover have "take_bit m (sint l) = sint l"
    using assms(1,2) by (simp add: take_bit_int_eq_self)
  ultimately have "bit (take_bit m (sint l)) k" by simp
  then show False using assms(3) by (simp add: bit_take_bit_iff)
qed

lemma finish_errno:
  assumes "err AND MERR_ERRNO_MASK = 0" "0 \<le> sint e"
  shows "merr_errno (merr_pack_finish err e l) = e"
proof (rule bit_word_eqI)
  fix n assume n: "n < LENGTH(32)"
  have "\<not> bit err n" if "n < 31"
  proof -
    have "bit (err AND MERR_ERRNO_MASK) n = bit (0::64 word) n" using assms(1) by simp
    with that show ?thesis by (simp add: bit_and_iff bit_errno_mask)
  qed
  moreover have "\<not> bit e 31" using assms(2) by (rule nonneg_no_msb)
  ultimately show "bit (merr_errno (merr_pack_finish err e l)) n = bit e n"
    using n by (cases "n = 31") (auto simp add: merr_errno_def bit_word_ucast_iff bit_and_iff bit_finish bit_errno_mask)
qed

lemma finish_lineno:
  assumes "err AND MERR_LINE_MASK = 0" "0 \<le> sint l" "sint l < 2 ^ 16"
  shows "merr_lineno (merr_pack_finish err e l) = l"
proof (rule bit_word_eqI)
  fix n assume n: "n < LENGTH(32)"
  have hi: "k < 16" if "bit l k" for k
    using small_no_high_bit [OF assms(2,3), of k] that by (cases "k < 16") auto
  have lo: "\<not> bit err (32 + k)" if "k < 16" for k
  proof -
    have "bit (err AND MERR_LINE_MASK) (32 + k) = bit (0::64 word) (32 + k)"
      using assms(1) by simp
    with that show ?thesis by (simp add: bit_and_iff bit_line_mask)
  qed
  show "bit (merr_lineno (merr_pack_finish err e l)) n = bit l n"
    using n hi[of n] lo[of n]
    by (auto simp add: merr_lineno_def MERR_LINE_SHIFT_def bit_word_ucast_iff bit_drop_bit_eq bit_and_iff bit_finish bit_line_mask)
qed

lemma sint_neg:
  fixes e :: cint
  assumes "- (2 ^ 31) < sint e"
  shows "sint (- e) = - sint e"
proof -
  have "- e = word_of_int (- sint e)" by simp
  then have "sint (- e) = signed_take_bit 31 (- sint e)"
    by (simp only: sint_sbintrunc') simp
  moreover have "sint e < 2 ^ 31" using sint_lt [of e] by simp
  ultimately show ?thesis using assms by (simp add: signed_take_bit_int_eq_self)
qed

lemma abs_errnum:
  fixes e :: cint
  assumes "- (2 ^ 31) < sint e"
  shows "sint (if e <s 0 then - e else e) = \<bar>sint e\<bar>"
  using assms by (simp add: word_sless_alt sint_neg)

lemma file_off_zero_iff:
  "merr_file_off err = 0 \<longleftrightarrow> signed_drop_bit MERR_FILE_SHIFT (err AND MERR_FILE_MASK) = 0"
proof
  let ?x = "signed_drop_bit MERR_FILE_SHIFT (err AND MERR_FILE_MASK)"
  assume z: "merr_file_off err = 0"
  have b: "\<not> bit ?x n" if "n < 32" for n
  proof -
    have "bit (merr_file_off err) n = bit (0::cint) n" using z by simp
    then show ?thesis using that by (simp add: merr_file_off_def bit_word_ucast_iff)
  qed
  show "?x = 0"
  proof (rule bit_word_eqI)
    fix n assume n: "n < LENGTH(64)"
    have "\<not> bit ?x 16" by (rule b) simp
    then have "\<not> bit (err AND MERR_FILE_MASK) 63"
      by (simp add: bit_signed_drop_bit_iff MERR_FILE_SHIFT_def)
    then have "\<not> bit ?x n" if "16 \<le> n" using that n
      by (simp add: bit_signed_drop_bit_iff MERR_FILE_SHIFT_def)
    moreover have "\<not> bit ?x n" if "n < 16" using that by (intro b) simp
    ultimately show "bit ?x n = bit (0::64 word) n" by (cases "n < 16") auto
  qed
next
  assume "signed_drop_bit MERR_FILE_SHIFT (err AND MERR_FILE_MASK) = 0"
  then show "merr_file_off err = 0" by (simp add: merr_file_off_def)
qed

lemma finish_zero_fields:
  "(0::64 word) AND MERR_ERRNO_MASK = 0" "(0::64 word) AND MERR_LINE_MASK = 0"
  by simp_all

lemma pack_file_low: "n < 48 \<Longrightarrow> \<not> bit (merr_pack_file sy file) n"
  by (simp add: merr_pack_file_def Let_def MERR_FILE_SHIFT_def bit_push_bit_iff)

lemma low31_all_ones:
  fixes e1 :: cint
  assumes "\<And>n. n < 31 \<Longrightarrow> bit e1 n"
  shows "e1 = 0x7fffffff \<or> e1 = - 1"
proof (cases "bit e1 31")
  case True
  have "e1 = - 1"
  proof (rule bit_word_eqI)
    fix n assume "n < LENGTH(32)"
    then show "bit e1 n = bit (- 1 :: cint) n"
      using assms [of n] True by (cases "n = 31") auto
  qed
  then show ?thesis ..
next
  case False
  have m: "(0x7fffffff :: cint) = mask 31" by (simp add: mask_eq_exp_minus_1)
  have "e1 = mask 31"
  proof (rule bit_word_eqI)
    fix n assume "n < LENGTH(32)"
    then show "bit e1 n = bit (mask 31 :: cint) n"
      using assms [of n] False by (cases "n = 31") (auto simp add: bit_mask_iff)
  qed
  then show ?thesis using m by simp
qed

lemma abs_all_ones:
  fixes e :: cint
  assumes "(if e <s 0 then - e else e) = 0x7fffffff \<or> (if e <s 0 then - e else e) = - 1"
  shows "e = 0x7fffffff \<or> e = - 0x7fffffff"
proof (cases "e <s 0")
  case True
  then have "- e = 0x7fffffff \<or> - e = - 1" using assms by simp
  then have "e = - 0x7fffffff \<or> e = 1" by (metis minus_minus)
  moreover have "\<not> (1 :: cint) <s 0" by (simp add: word_sless_alt)
  ultimately show ?thesis using True by auto
next
  case False
  then have "e = 0x7fffffff \<or> e = - 1" using assms by simp
  moreover have "(- 1 :: cint) <s 0" by (simp add: word_sless_alt)
  ultimately show ?thesis using False by auto
qed

lemma line_all_ones_iff:
  fixes l :: cint
  shows "(\<forall>n. 32 \<le> n \<and> n < 48 \<longrightarrow> bit l (n - 32)) \<longleftrightarrow> l AND 0xffff = 0xffff"
proof -
  have m: "(0xffff :: cint) = mask 16" by (simp add: mask_eq_exp_minus_1)
  show ?thesis
  proof
    assume a: "\<forall>n. 32 \<le> n \<and> n < 48 \<longrightarrow> bit l (n - 32)"
    have "l AND mask 16 = mask 16"
    proof (rule bit_word_eqI)
      fix n assume "n < LENGTH(32)"
      then show "bit (l AND mask 16) n = bit (mask 16 :: cint) n"
        using a [rule_format, of "n + 32"] by (auto simp add: bit_and_iff bit_mask_iff)
    qed
    then show "l AND 0xffff = 0xffff" by (simp only: m)
  next
    assume "l AND 0xffff = 0xffff"
    then have e: "l AND mask 16 = mask 16" by (simp only: m)
    show "\<forall>n. 32 \<le> n \<and> n < 48 \<longrightarrow> bit l (n - 32)"
    proof (intro allI impI)
      fix n :: nat assume n: "32 \<le> n \<and> n < 48"
      have "bit (l AND mask 16) (n - 32) = bit (mask 16 :: cint) (n - 32)" by (simp only: e)
      then show "bit l (n - 32)" using n by (auto simp add: bit_and_iff bit_mask_iff)
    qed
  qed
qed

lemma finish_all_ones_iff:
  assumes low: "\<And>n. n < 48 \<Longrightarrow> \<not> bit err n"
  shows "merr_pack_finish err e1 l = - 1 \<longleftrightarrow>
     err = MERR_FILE_MASK \<and> (\<forall>n. 32 \<le> n \<and> n < 48 \<longrightarrow> bit l (n - 32)) \<and> (\<forall>n<31. bit e1 n)"
proof
  assume "merr_pack_finish err e1 l = - 1"
  then have b: "bit (merr_pack_finish err e1 l) n" if "n < 64" for n
    using that by simp
  have "err = MERR_FILE_MASK"
  proof (rule bit_word_eqI)
    fix n assume n: "n < LENGTH(64)"
    show "bit err n = bit MERR_FILE_MASK n"
    proof (cases "n < 48")
      case True
      then show ?thesis using low [of n] by (simp add: bit_file_mask)
    next
      case False
      then show ?thesis using b [of n] n by (simp add: bit_finish bit_file_mask)
    qed
  qed
  moreover have "bit l (n - 32)" if "32 \<le> n \<and> n < 48" for n
    using b [of n] low [of n] that by (simp add: bit_finish)
  moreover have "bit e1 n" if "n < 31" for n
    using b [of n] low [of n] that by (simp add: bit_finish)
  ultimately show "err = MERR_FILE_MASK \<and> (\<forall>n. 32 \<le> n \<and> n < 48 \<longrightarrow> bit l (n - 32)) \<and> (\<forall>n<31. bit e1 n)"
    by blast
next
  assume a: "err = MERR_FILE_MASK \<and> (\<forall>n. 32 \<le> n \<and> n < 48 \<longrightarrow> bit l (n - 32)) \<and> (\<forall>n<31. bit e1 n)"
  show "merr_pack_finish err e1 l = - 1"
  proof (rule bit_word_eqI)
    fix n assume n: "n < LENGTH(64)"
    consider "n < 31" | "n = 31" | "32 \<le> n \<and> n < 48" | "48 \<le> n" by linarith
    then have "bit (merr_pack_finish err e1 l) n"
    proof cases
      case 1 then show ?thesis using a n by (simp add: bit_finish)
    next
      case 2 then show ?thesis by (simp add: bit_finish)
    next
      case 3 then show ?thesis using a n by (simp add: bit_finish)
    next
      case 4 then show ?thesis using a n by (simp add: bit_finish bit_file_mask)
    qed
    then show "bit (merr_pack_finish err e1 l) n = bit (- 1 :: 64 word) n" using n by simp
  qed
qed

lemma all_ones_abs:
  fixes e :: cint
  shows "(\<forall>n<31. bit (if e <s 0 then - e else e) n) \<longleftrightarrow> e = 0x7fffffff \<or> e = - 0x7fffffff"
proof
  assume "\<forall>n<31. bit (if e <s 0 then - e else e) n"
  then have "(if e <s 0 then - e else e) = 0x7fffffff \<or> (if e <s 0 then - e else e) = - 1"
    by (intro low31_all_ones) simp
  then show "e = 0x7fffffff \<or> e = - 0x7fffffff" by (rule abs_all_ones)
next
  assume "e = 0x7fffffff \<or> e = - 0x7fffffff"
  then have "(if e <s 0 then - e else e) = 0x7fffffff"
    by (auto simp add: word_sless_alt)
  moreover have "(0x7fffffff :: cint) = mask 31" by (simp add: mask_eq_exp_minus_1)
  ultimately have "(if e <s 0 then - e else e) = mask 31" by simp
  then show "\<forall>n<31. bit (if e <s 0 then - e else e) n"
    by (simp only: bit_mask_iff) simp
qed

lemma range_test_false:
  assumes "start_hse_merr sy < stop_hse_merr sy"
  shows "\<not> file_outside sy p"
proof (cases "start_hse_merr sy < p")
  case True
  then show ?thesis by (simp add: file_outside_def)
next
  case False
  then have "p \<le> start_hse_merr sy" by simp
  then have "p < stop_hse_merr sy" using assms by simp
  then show ?thesis by (simp add: file_outside_def)
qed

section \<open>Facts about strings, buffers and conversions\<close>

lemma read_str_holds:
  "holds_str mem p s \<Longrightarrow> length s < n \<Longrightarrow> read_str mem p n = s"
proof (induction s arbitrary: p n)
  case Nil
  then show ?case by (simp add: read_str.simps [of mem p n])
next
  case (Cons c cs)
  from Cons.prems have "read_str mem (p + 1) (n - 1) = cs"
    by (intro Cons.IH) auto
  with Cons.prems show ?case by (simp add: read_str.simps [of mem p n])
qed

lemma c_string_holds:
  "holds_str mem p s \<Longrightarrow> length s < 2 ^ 64 \<Longrightarrow> c_string mem p = s"
  by (simp add: c_string_def read_str_holds)







lemma sint_of_nat_small:
  assumes "n < 2 ^ 31"
  shows "sint (of_nat n :: cint) = int n"
proof -
  have "sint (word_of_int (int n) :: cint) = signed_take_bit 31 (int n)"
    by (simp only: sint_sbintrunc') simp
  moreover have "signed_take_bit 31 (int n) = int n"
    using assms by (intro signed_take_bit_int_eq_self) auto
  ultimately show ?thesis by simp
qed

lemma scast_of_nat_small:
  assumes "n < 2 ^ 31"
  shows "(scast (of_nat n :: cint) :: 64 word) = of_nat n"
proof -
  have "(scast (of_nat n :: cint) :: 64 word) = of_int (sint (of_nat n :: cint))"
    by simp
  then show ?thesis using sint_of_nat_small [OF assms] by simp
qed

lemma unat_scast_of_nat_small:
  assumes "n < 2 ^ 31"
  shows "unat (scast (of_nat n :: cint) :: 64 word) = n"
proof -
  have "n < 2 ^ 64" using assms by (rule less_trans) simp
  then have "unat (of_nat n :: 64 word) = n" by (simp add: unat_of_nat)
  then show ?thesis by (simp add: scast_of_nat_small [OF assms])
qed


lemma not_sless_of_nat_small:
  assumes "n < 2 ^ 31"
  shows "\<not> (of_nat n :: cint) <s 0"
  using sint_of_nat_small [OF assms] by (simp add: word_sless_alt)

lemma snprintf_small:
  assumes "length s < 2 ^ 31"
  shows "snprintf buf s = (of_nat (length s), put_str buf s)"
  using assms by (simp add: snprintf_def)

lemma pack_rsvd:
  assumes "e \<noteq> 0"
  shows "merr_pack sy e file l AND MERR_RSVD_MASK \<noteq> 0"
  using assms by (simp add: merr_pack_def Let_def finish_rsvd)

lemma pack_file_errno_clear: "merr_pack_file sy file AND MERR_ERRNO_MASK = 0"
proof (rule bit_word_eqI)
  fix n assume "n < LENGTH(64)"
  have "\<not> bit (merr_pack_file sy file) n" if "n < 31"
    using that by (intro pack_file_low) simp
  then show "bit (merr_pack_file sy file AND MERR_ERRNO_MASK) n = bit (0::64 word) n"
    by (auto simp add: bit_and_iff bit_errno_mask)
qed

lemma pack_errno_EBUG: "merr_errno (merr_pack sy EBUG file l) = EBUG"
proof -
  have e: "EBUG \<noteq> 0" "\<not> EBUG <s 0" "0 \<le> sint EBUG"
    by (simp_all add: EBUG_def word_sless_alt)
  have "merr_errno (merr_pack_finish 0 EBUG l) = EBUG"
    using finish_zero_fields(1) e(3) by (rule finish_errno)
  moreover have "merr_errno (merr_pack_finish (merr_pack_file sy file) EBUG l) = EBUG"
    using pack_file_errno_clear e(3) by (rule finish_errno)
  ultimately show ?thesis using e by (simp add: merr_pack_def)
qed

lemma strerror_EBUG:
  assumes "merr_errno err = EBUG"
  shows "merr_strerror pf err buf = Some (put_str buf ''HSE software bug'', 16, [])"
  using assms by (simp add: merr_strerror_def strlcpy_def)

lemma unat_of_nat_64:
  assumes "n < 2 ^ 64"
  shows "unat (of_nat n :: 64 word) = n"
proof -
  have "unat (of_nat n :: 64 word) = n mod 2 ^ LENGTH(64)" by (rule unat_of_nat)
  then show ?thesis using assms by simp
qed

lemma example_file:
  "merr_file example_symbols example_memory (merr_pack example_symbols e 0x1140 10) = Some 0x114a"
  if "e = 5 \<or> e = EBUG"
  using that by (elim disjE; hypsubst) (code_simp, code_simp)

lemma example_c_string: "c_string example_memory 0x114a = ''src/hse_err.c''"
proof -
  have "holds_str example_memory 0x114a ''src/hse_err.c''" by code_simp
  then show ?thesis by (rule c_string_holds) simp
qed

lemma example_prefix:
  "merr_prefix example_memory 0x114a (merr_pack example_symbols e 0x1140 10) = ''src/hse_err.c:10: ''"
  if "e = 5 \<or> e = EBUG"
proof -
  have "fmt_d (merr_lineno (merr_pack example_symbols e 0x1140 10)) = ''10''"
    using that by (elim disjE; hypsubst) (code_simp, code_simp)
  then show ?thesis by (simp add: merr_prefix_def example_c_string)
qed

section \<open>Facts about the path scan\<close>

lemma scan_stop_le: "scan_stop k r \<le> length r"
  by (induction r arbitrary: k) (auto simp add: le_SucI)

lemma scan_back_eq:
  "scan_back r cur k =
     (if (r \<noteq> [] \<longrightarrow> byte_ok cur) \<and> list_all byte_ok (drop (max (scan_stop k r) 1) (rev r))
      then Some (scan_stop k r) else None)"
proof (induction r arbitrary: cur k)
  case Nil
  then show ?case by simp
next
  case (Cons c r)
  have d: "list_all byte_ok (drop (max (scan_stop k' r) 1) (rev r @ [c])) \<longleftrightarrow>
           (r \<noteq> [] \<longrightarrow> byte_ok c) \<and> list_all byte_ok (drop (max (scan_stop k' r) 1) (rev r))" for k'
  proof (cases "r = []")
    case True
    then show ?thesis by simp
  next
    case False
    then have "max (scan_stop k' r) 1 \<le> length (rev r)" using scan_stop_le [of k' r] by (cases r) auto
    then show ?thesis using False by auto
  qed
  show ?case
  proof (cases "byte_ok cur")
    case False
    then show ?thesis by (simp add: byte_ok_def)
  next
    case cur: True
    show ?thesis
    proof (cases "c = SLASH \<and> 1 \<le> k")
      case True
      then show ?thesis using cur by (simp add: byte_ok_def)
    next
      case False
      define k' where "k' = (if c = SLASH then k + 1 else k)"
      have sb: "scan_back (c # r) cur k = scan_back r c k'"
        using cur False by (auto simp add: byte_ok_def k'_def)
      have ct: "scan_stop k (c # r) = scan_stop k' r"
        using False by (auto simp add: k'_def)
      show ?thesis
        unfolding sb ct Cons.IH [of c k'] using cur d [of k'] by (simp del: drop_append)
    qed
  qed
qed

lemma scan_stop_1: "scan_stop (Suc 0) r = length (dropWhile (\<lambda>c. c \<noteq> SLASH) r)"
  by (induction r) auto

lemma scan_stop_0:
  "scan_stop 0 r = (case dropWhile (\<lambda>c. c \<noteq> SLASH) r of [] \<Rightarrow> 0
              | sl # r' \<Rightarrow> length (dropWhile (\<lambda>c. c \<noteq> SLASH) r'))"
  by (induction r) (auto simp add: scan_stop_1)

lemma last_two_scan_stop: "last_two s = drop (scan_stop 0 (rev s)) s"
proof (cases "dropWhile (\<lambda>c. c \<noteq> SLASH) (rev s)")
  case Nil
  show ?thesis unfolding last_two_def scan_stop_0 Nil by simp
next
  case (Cons sl r)
  show ?thesis unfolding last_two_def scan_stop_0 Cons by simp
qed

lemma strnlen_holds:
  "holds_str mem p s \<Longrightarrow> length s \<le> n \<Longrightarrow> strnlen mem p n = length s"
proof (induction s arbitrary: p n)
  case Nil
  then show ?case by (cases n) auto
next
  case (Cons c cs)
  then obtain m where n: "n = Suc m" by (cases n) auto
  with Cons.prems have "strnlen mem (p + 1) m = length cs" by (intro Cons.IH) auto
  with Cons.prems n show ?case by simp
qed

lemma holds_str_nth:
  "holds_str mem p s \<Longrightarrow> i < length s \<Longrightarrow> mem (p + of_nat i) = s ! i"
proof (induction s arbitrary: p i)
  case Nil
  then show ?case by simp
next
  case (Cons c cs)
  show ?case
  proof (cases i)
    case 0
    with Cons.prems show ?thesis by simp
  next
    case (Suc j)
    with Cons.prems have "mem ((p + 1) + of_nat j) = cs ! j" by (intro Cons.IH) auto
    with Suc show ?thesis by (simp add: ac_simps)
  qed
qed

lemma holds_str_end: "holds_str mem p s \<Longrightarrow> mem (p + of_nat (length s)) = NUL"
proof (induction s arbitrary: p)
  case Nil
  then show ?case by simp
next
  case (Cons c cs)
  then have "mem ((p + 1) + of_nat (length cs)) = NUL" by (intro Cons.IH) auto
  then show ?case by (simp add: ac_simps)
qed

lemma holds_str_drop:
  "holds_str mem p s \<Longrightarrow> i \<le> length s \<Longrightarrow> holds_str mem (p + of_nat i) (drop i s)"
proof (induction s arbitrary: p i)
  case Nil
  then show ?case by simp
next
  case (Cons c cs)
  show ?case
  proof (cases i)
    case 0
    with Cons.prems show ?thesis by simp
  next
    case (Suc j)
    with Cons.prems have "holds_str mem ((p + 1) + of_nat j) (drop j cs)" by (intro Cons.IH) auto
    with Suc show ?thesis by (simp add: ac_simps)
  qed
qed

lemma scan_mem:
  assumes h: "holds_str mem p s" and i: "i \<le> length s"
  shows "merr_file_scan sy mem (p + of_nat i) i k =
     (case scan_back (rev (take i s)) (mem (p + of_nat i)) k of
        None \<Rightarrow> hse_merr_bug2 sy | Some j \<Rightarrow> p + of_nat j)"
  using i
proof (induction i arbitrary: k)
  case 0
  then show ?case by simp
next
  case (Suc j)
  then have j: "j < length s" by simp
  define q where "q = p + of_nat (Suc j)"
  have pj: "q - 1 = p + of_nat j" by (simp add: q_def)
  have prev: "mem (p + of_nat j) = s ! j" using h j by (rule holds_str_nth)
  have tk: "rev (take (Suc j) s) = s ! j # rev (take j s)"
    using j by (simp add: take_Suc_conv_app_nth)
  have len: "length (s ! j # rev (take j s)) = Suc j" using j by simp
  have IH: "merr_file_scan sy mem (p + of_nat j) j k' =
     (case scan_back (rev (take j s)) (s ! j) k' of
        None \<Rightarrow> hse_merr_bug2 sy | Some j \<Rightarrow> p + of_nat j)" for k'
    using Suc.IH [of k'] j prev by simp
  have "merr_file_scan sy mem q (Suc j) k =
     (case scan_back (s ! j # rev (take j s)) (mem q) k of
        None \<Rightarrow> hse_merr_bug2 sy | Some j \<Rightarrow> p + of_nat j)"
    unfolding merr_file_scan.simps scan_back.simps pj prev IH len
    by (simp add: q_def)
  then show ?case unfolding tk q_def .
qed

lemma holds_str_no_NUL: "holds_str mem p s \<Longrightarrow> NUL \<notin> set s"
  by (induction s arbitrary: p) auto

lemma byte_ok_isprint: "NUL \<notin> set xs \<Longrightarrow> list_all byte_ok xs = list_all isprint xs"
  by (induction xs) (auto simp add: byte_ok_def)

lemma scan_stop_last_two: "length s - length (last_two s) = scan_stop 0 (rev s)"
  using scan_stop_le [of 0 "rev s"] by (simp add: last_two_scan_stop)

text \<open>
  What \<open>merr_file\<close> returns for a code whose offset resolves to a path \<open>s\<close> of at most
  \<open>PATH_MAX\<close> bytes: with \<open>m\<close> the index at which the last two components start, the
  address of that suffix when every byte of the path from index \<open>max m 1\<close> on is
  printable, and \<open>hse_merr_bug2\<close> otherwise.  The byte at index 0 is not among
  those tested.
\<close>

lemma merr_file_path:
  assumes code: "err \<noteq> 0" "err \<noteq> - 1" "merr_file_off err \<noteq> 0"
    and h: "holds_str mem (merr_file_addr sy (merr_file_off err)) s"
    and len: "length s \<le> PATH_MAX"
    and m: "m = length s - length (last_two s)"
  shows "merr_file sy mem err =
           Some (if list_all isprint (drop (max m 1) s)
                 then merr_file_addr sy (merr_file_off err) + of_nat m
                 else hse_merr_bug2 sy)"
    and "c_string mem (merr_file_addr sy (merr_file_off err) + of_nat m) = last_two s"
proof -
  let ?p = "merr_file_addr sy (merr_file_off err)"
  have mc: "m = scan_stop 0 (rev s)" using m by (simp only: scan_stop_last_two)
  have ml: "m \<le> length s" unfolding mc using scan_stop_le [of 0 "rev s"] by simp
  have n: "strnlen mem ?p PATH_MAX = length s" using h len by (rule strnlen_holds)
  have e: "mem (?p + of_nat (length s)) = NUL" using h by (rule holds_str_end)
  have "NUL \<notin> set (drop (max m 1) s)"
    using holds_str_no_NUL [OF h] by (auto dest: in_set_dropD)
  then have ok: "list_all byte_ok (drop (max m 1) s) = list_all isprint (drop (max m 1) s)"
    by (rule byte_ok_isprint)
  then have ok': "list_all byte_ok (drop (max m (Suc 0)) s) = list_all isprint (drop (max m (Suc 0)) s)"
    by simp
  have "merr_file_scan sy mem (?p + of_nat (length s)) (length s) 0 =
     (case scan_back (rev (take (length s) s)) (mem (?p + of_nat (length s))) 0 of
        None \<Rightarrow> hse_merr_bug2 sy | Some j \<Rightarrow> ?p + of_nat j)"
    using h by (rule scan_mem) simp
  then have "merr_file_scan sy mem (?p + of_nat (length s)) (length s) 0 =
     (if list_all isprint (drop (max m 1) s) then ?p + of_nat m else hse_merr_bug2 sy)"
    by (simp add: e scan_back_eq byte_ok_def [of NUL] mc [symmetric] ok')
  then show "merr_file sy mem err =
           Some (if list_all isprint (drop (max m 1) s) then ?p + of_nat m else hse_merr_bug2 sy)"
    using code by (simp add: merr_file_def Let_def n)
  have "holds_str mem (?p + of_nat m) (drop m s)" using h ml by (rule holds_str_drop)
  moreover have "length (drop m s) < 2 ^ 64"
  proof -
    have "length (drop m s) \<le> 4096" using len by (simp add: PATH_MAX_def)
    then show ?thesis by simp
  qed
  ultimately have "c_string mem (?p + of_nat m) = drop m s" by (rule c_string_holds)
  then show "c_string mem (?p + of_nat m) = last_two s" by (simp add: last_two_scan_stop mc)
qed

section \<open>The encoder\<close>

text \<open>
  C10: \<open>merr_pack(0, file, line)\<close> is 0 for every file identifier and line: line 32
  returns before \<open>file\<close> or \<open>line\<close> is looked at.
\<close>

theorem merr_pack_zero: "merr_pack sy 0 file line = 0"
  by (simp add: merr_pack_def)

text \<open>
  C3 as stated, for every errno of the field's range, fails at errno 0, which is in
  that range: \<open>merr_pack(0, NULL, 7)\<close> is 0 and its reserved bit is clear.
\<close>

theorem merr_pack_no_file_zero_errno_counterexample:
  "\<not> (merr_pack example_symbols 0 0 7 AND MERR_RSVD_MASK \<noteq> 0)"
  by (simp add: merr_pack_def)

text \<open>
  C3, amended to nonzero errnos: for every errno \<open>e \<noteq> 0\<close> other than \<open>INT_MIN\<close> (so
  that its magnitude fits the 31 bits of the errno field) and every line from 0 to
  65535, \<open>merr_pack(e, NULL, l)\<close> has the reserved bit set and a file field of zero,
  \<open>merr_errno\<close> gives back the magnitude of \<open>e\<close>, \<open>merr_lineno\<close> gives back \<open>l\<close>, and
  \<open>merr_file\<close> finds no location.
\<close>

theorem merr_pack_no_file:
  assumes "e \<noteq> 0" and "- (2 ^ 31) < sint e" and "0 \<le> sint l" and "sint l < 2 ^ 16"
  shows "merr_pack sy e 0 l AND MERR_RSVD_MASK \<noteq> 0 \<and>
         merr_pack sy e 0 l AND MERR_FILE_MASK = 0 \<and>
         sint (merr_errno (merr_pack sy e 0 l)) = \<bar>sint e\<bar> \<and>
         merr_lineno (merr_pack sy e 0 l) = l \<and>
         merr_file sy mem (merr_pack sy e 0 l) = None"
proof -
  define e1 where "e1 = (if e <s 0 then - e else e)"
  have p: "merr_pack sy e 0 l = merr_pack_finish 0 e1 l"
    using assms(1) by (simp add: merr_pack_def e1_def)
  have a: "sint e1 = \<bar>sint e\<bar>"
    unfolding e1_def using assms(2) by (rule abs_errnum)
  then have nn: "0 \<le> sint e1" by simp
  have f: "merr_pack_finish 0 e1 l AND MERR_FILE_MASK = 0"
    by (simp add: finish_file)
  have "merr_pack_finish 0 e1 l AND MERR_RSVD_MASK \<noteq> 0" by (rule finish_rsvd)
  moreover have "merr_errno (merr_pack_finish 0 e1 l) = e1"
    using finish_zero_fields(1) nn by (rule finish_errno)
  moreover have "merr_lineno (merr_pack_finish 0 e1 l) = l"
    using finish_zero_fields(2) assms(3,4) by (rule finish_lineno)
  moreover have "merr_file sy mem (merr_pack_finish 0 e1 l) = None"
    using f by (simp add: merr_file_def Let_def file_off_zero_iff)
  ultimately show ?thesis using p a f by simp
qed

text \<open>
  The amended C3 at errno -5 and line 10: the code decodes to errno 5 and line 10.
\<close>

theorem merr_pack_no_file_witness:
  "(- 5 :: cint) \<noteq> 0 \<and> - (2 ^ 31) < sint (- 5 :: cint) \<and> 0 \<le> sint (10 :: cint) \<and> sint (10 :: cint) < 2 ^ 16 \<and>
   merr_pack example_symbols (- 5) 0 10 AND MERR_RSVD_MASK \<noteq> 0 \<and>
   merr_pack example_symbols (- 5) 0 10 AND MERR_FILE_MASK = 0 \<and>
   merr_errno (merr_pack example_symbols (- 5) 0 10) = 5 \<and>
   merr_lineno (merr_pack example_symbols (- 5) 0 10) = 10"
proof -
  have h: "(- 5 :: cint) \<noteq> 0" "- (2 ^ 31) < sint (- 5 :: cint)" "0 \<le> sint (10 :: cint)" "sint (10 :: cint) < 2 ^ 16"
    by simp_all
  have "sint (merr_errno (merr_pack example_symbols (- 5) 0 10)) = sint (5 :: cint)"
    using merr_pack_no_file [OF h, of example_symbols "\<lambda>_. NUL"] by simp
  then have "merr_errno (merr_pack example_symbols (- 5) 0 10) = 5"
    by (simp only: word_eq_iff_signed [symmetric])
  then show ?thesis
    using h merr_pack_no_file [OF h, of example_symbols "\<lambda>_. NUL"] by simp
qed

text \<open>
  C7 as stated fails: with the errno \<open>INT_MAX\<close>, the line 65535 and the address of
  the string 64 bytes below \<open>hse_merr_base\<close> (offset -1; here \<open>hse_merr_bug3\<close>),
  \<open>merr_pack\<close> returns the all-ones value.
\<close>

theorem merr_pack_all_ones_counterexample:
  "\<not> (merr_pack example_symbols 0x7fffffff 0x10c0 0xffff \<noteq> - 1)"
  by code_simp

text \<open>
  C7, amended: \<open>merr_pack(e, file, l)\<close> is the all-ones value exactly when the
  magnitude of \<open>e\<close> is \<open>2^31 - 1\<close>, the low 16 bits of \<open>l\<close> are all ones, and \<open>file\<close> is
  not null and packs to the offset -1 (a file field of all ones).  For every other
  input, so for every errno of a smaller magnitude, the result is not the sentinel.
\<close>

theorem merr_pack_all_ones_iff:
  "merr_pack sy e file l = - 1 \<longleftrightarrow>
     (e = 0x7fffffff \<or> e = - 0x7fffffff) \<and> l AND 0xffff = 0xffff \<and>
     file \<noteq> 0 \<and> merr_pack_file sy file = MERR_FILE_MASK"
proof (cases "e = 0")
  case True
  then show ?thesis by (simp add: merr_pack_def)
next
  case e: False
  have fm: "MERR_FILE_MASK \<noteq> 0" by (simp add: MERR_FILE_MASK_def)
  show ?thesis
  proof (cases "file = 0")
    case True
    have "merr_pack_finish 0 (if e <s 0 then - e else e) l \<noteq> - 1"
      using finish_all_ones_iff [of 0 "if e <s 0 then - e else e" l] fm by simp
    then show ?thesis using e True by (simp add: merr_pack_def)
  next
    case False
    have "merr_pack sy e file l = merr_pack_finish (merr_pack_file sy file) (if e <s 0 then - e else e) l"
      using e False by (simp add: merr_pack_def)
    then show ?thesis
      using finish_all_ones_iff [of "merr_pack_file sy file" "if e <s 0 then - e else e" l, OF pack_file_low]
        False all_ones_abs [of e] line_all_ones_iff [of l]
      by (simp only:) blast
  qed
qed

text \<open>
  The amended C7 at errno 5, with the file and line of the counterexample: the result
  is not the sentinel.
\<close>

theorem merr_pack_all_ones_iff_witness:
  "merr_pack example_symbols 5 0x10c0 0xffff \<noteq> - 1"
  using merr_pack_all_ones_iff [of example_symbols 5 "0x10c0" "0xffff"] by simp

text \<open>
  C2: when \<open>__start_hse_merr < __stop_hse_merr\<close>, the range test is false for every
  pointer \<open>p\<close>, so \<open>merr_pack\<close> always goes on to the offset computation, never to
  \<open>finish\<close> from line 45, and \<open>merr_file\<close> always keeps the address it computed,
  never \<open>hse_merr_bug3\<close> from line 82.
\<close>

theorem range_test_unreachable:
  assumes "start_hse_merr sy < stop_hse_merr sy"
  shows "\<not> file_outside sy p \<and>
    merr_pack_file sy file =
      (let file1 = (if \<not> IS_ALIGNED file 8 then hse_merr_bug0 sy else file);
           file2 = (if \<not> IS_ALIGNED file1 MERR_ALIGN then hse_merr_bug1 sy else file1);
           off = s64_div (file2 - hse_merr_base sy) MERR_ALIGN
       in if signed_drop_bit MERR_FILE_SHIFT (push_bit MERR_FILE_SHIFT off) = off
          then push_bit MERR_FILE_SHIFT off else 0) \<and>
    merr_file_addr sy off = hse_merr_base sy + scast (off * ucast MERR_ALIGN)"
  using range_test_false [OF assms]
  by (simp add: merr_pack_file_def merr_file_addr_def Let_def)

text \<open>
  C2 in the example image, at a pointer beyond the end of the section.
\<close>

theorem range_test_unreachable_witness:
  "start_hse_merr example_symbols < stop_hse_merr example_symbols \<and>
   \<not> file_outside example_symbols 0x4000 \<and>
   merr_file_addr example_symbols 188 = 0x4000"
proof -
  have h: "start_hse_merr example_symbols < stop_hse_merr example_symbols"
    by (simp add: example_symbols_def)
  have "hse_merr_base example_symbols + scast ((188::cint) * ucast MERR_ALIGN) = 0x4000"
    by (simp add: example_symbols_def MERR_ALIGN_def)
  then show ?thesis
    using h range_test_unreachable [OF h, of "0x4000" 0 188] by simp
qed

text \<open>
  C1 does not hold on the code.  In the example image the address 0x4000 is 64-byte
  aligned and lies beyond \<open>__stop_hse_merr\<close>, so it is outside the table; yet
  \<open>merr_pack(5, 0x4000, 10)\<close> stores the offset 188 in the file field, and
  \<open>merr_file\<close> of that code returns a location, the address 0x4000 itself.
\<close>

theorem merr_pack_outside_table:
  "stop_hse_merr example_symbols \<le> 0x4000 \<and>
   merr_pack example_symbols 5 0x4000 10 = 0x00BC000A80000005 \<and>
   merr_file_off (merr_pack example_symbols 5 0x4000 10) = 188 \<and>
   merr_file example_symbols (\<lambda>_. NUL) (merr_pack example_symbols 5 0x4000 10) = Some 0x4000"
  by code_simp

section \<open>The location decoder\<close>

text \<open>
  C8: \<open>merr_file\<close> returns \<open>NULL\<close> exactly when the code is 0, is the all-ones
  value, or has a file field that reads as the signed value 0.  The narrowing of
  that value to the \<open>s32\<close> \<open>off\<close> loses nothing.
\<close>

theorem merr_file_null_iff:
  "merr_file sy mem err = None \<longleftrightarrow>
     err = 0 \<or> err = - 1 \<or> sint (signed_drop_bit MERR_FILE_SHIFT (err AND MERR_FILE_MASK)) = 0"
  by (simp add: merr_file_def Let_def file_off_zero_iff signed_eq_0_iff)

text \<open>
  C6 does not hold on the code.  The loop tests \<open>*file\<close> for printability at the
  positions it visits, from the terminator down to the second byte of the path, and
  looks at the first byte only as \<open>file[-1]\<close>, to compare it with the separator.  A
  path with fewer than two separators whose first byte is not printable is returned
  whole: for the path 0x01 \<open>b.c\<close> in the table, \<open>merr_file\<close> returns the address of
  the path, not \<open>hse_merr_bug2\<close>.
\<close>

theorem merr_file_first_byte_unchecked:
  "holds_str unprintable_memory 0x1140 [CHR 0x01, CHR ''b'', CHR ''.'', CHR ''c''] \<and>
   \<not> isprint (CHR 0x01) \<and>
   merr_file example_symbols unprintable_memory (merr_pack example_symbols 5 0x1140 10) = Some 0x1140 \<and>
   hse_merr_bug2 example_symbols \<noteq> 0x1140"
  by code_simp

section \<open>The message resolver\<close>

text \<open>
  C4 does not hold on the code.  For a code whose errno is \<open>EBUG\<close>, whatever the
  platform and the buffer, \<open>merr_strerror\<close> returns 16, the length of
  \<open>"HSE software bug"\<close>, where the length plus one for the terminator is 17: line
  112 returns the result of \<open>strlcpy\<close> without the \<open>1 +\<close> of lines 117, 121 and 137.
\<close>

theorem merr_strerror_EBUG_size:
  "merr_strerror pf (merr_pack sy EBUG file line) buf =
     Some (put_str buf ''HSE software bug'', 16, []) \<and>
   length ''HSE software bug'' + 1 = 17"
  by (simp add: strerror_EBUG pack_errno_EBUG)

section \<open>The formatter\<close>

text \<open>
  C5: for a code with the reserved bit set for which \<open>merr_file\<close> gives a
  location, when the prefix \<open>"<file>:<line>: "\<close> is at least as long as the buffer
  (the \<open>snprintf\<close> result is \<open>>= buf_sz\<close>), \<open>merr_strinfo\<close> leaves in the buffer what
  \<open>snprintf\<close> wrote, makes no errno lookup, and stores the prefix length plus 200 as
  the required size, which is not below the prefix length.  The prefix length plus
  200 is taken to fit an \<open>int\<close>, as the code computes it in one.
\<close>

theorem merr_strinfo_prefix_too_long:
  assumes rsvd: "err AND MERR_RSVD_MASK \<noteq> 0"
    and loc: "merr_file sy mem err = Some file"
    and fit: "length buf \<le> length (merr_prefix mem file err)"
    and small: "length (merr_prefix mem file err) + 200 < 2 ^ 31"
  shows "merr_strinfo sy mem pf err buf =
           Some \<lparr>out_buf = put_str buf (merr_prefix mem file err),
                 need = Some (of_nat (length (merr_prefix mem file err) + 200)),
                 lookups = []\<rparr> \<and>
         unat (of_nat (length (merr_prefix mem file err) + 200) :: 64 word) =
           length (merr_prefix mem file err) + 200"
proof -
  let ?P = "merr_prefix mem file err"
  have nz: "err \<noteq> 0" using rsvd by auto
  have s31: "length ?P < 2 ^ 31" and s200: "length ?P + 200 < 2 ^ 31" using small by auto
  have sn: "snprintf buf ?P = (of_nat (length ?P), put_str buf ?P)"
    using s31 by (rule snprintf_small)
  have nneg: "\<not> (of_nat (length ?P) :: cint) <s 0"
    using s31 by (rule not_sless_of_nat_small)
  have ge: "length buf \<le> unat (scast (of_nat (length ?P) :: cint) :: 64 word)"
    using fit by (simp add: unat_scast_of_nat_small [OF s31])
  have "(of_nat (length ?P) :: cint) + 200 = of_nat (length ?P + 200)" by simp
  then have sum: "(scast ((of_nat (length ?P) :: cint) + 200) :: 64 word) = of_nat (length ?P + 200)"
    by (simp only: scast_of_nat_small [OF s200])
  have "length ?P + 200 < 2 ^ 64" using s200 by (rule less_trans) simp
  then have u: "unat (of_nat (length ?P + 200) :: 64 word) = length ?P + 200"
    by (rule unat_of_nat_64)
  have "merr_strinfo sy mem pf err buf =
          Some \<lparr>out_buf = put_str buf ?P, need = Some (of_nat (length ?P + 200)), lookups = []\<rparr>"
    unfolding merr_strinfo_def using nz rsvd nneg ge
    by (simp add: loc sn sum del: of_nat_add)
  with u show ?thesis by simp
qed

text \<open>
  C5 in the example image, with a buffer of 10 bytes for the prefix
  \<open>"src/hse_err.c:10: "\<close> of 18 bytes: the required size is 218.
\<close>

theorem merr_strinfo_prefix_too_long_witness:
  "merr_strinfo example_symbols example_memory example_platform
     (merr_pack example_symbols 5 0x1140 10) (replicate 10 (CHR ''x'')) =
   Some \<lparr>out_buf = ''src/hse_e'' @ [NUL], need = Some 218, lookups = []\<rparr>"
proof -
  let ?err = "merr_pack example_symbols 5 0x1140 10"
  have r: "?err AND MERR_RSVD_MASK \<noteq> 0" by (rule pack_rsvd) simp
  have f: "merr_file example_symbols example_memory ?err = Some 0x114a"
    by (rule example_file) simp
  have P: "merr_prefix example_memory 0x114a ?err = ''src/hse_err.c:10: ''"
    by (rule example_prefix) simp
  have fit: "length (replicate 10 (CHR ''x'')) \<le> length (merr_prefix example_memory 0x114a ?err)"
    unfolding P by simp
  have small: "length (merr_prefix example_memory 0x114a ?err) + 200 < 2 ^ 31"
    unfolding P by simp
  have b: "put_str (replicate 10 (CHR ''x'')) ''src/hse_err.c:10: '' = ''src/hse_e'' @ [NUL]"
    by code_simp
  show ?thesis
    using merr_strinfo_prefix_too_long [OF r f fit small, of example_platform]
    unfolding P by (simp add: b)
qed

section \<open>The formatter on unmapped memory\<close>
























text \<open>
  The case that the last theorem leaves open.  In the example image the address
  0x4000 is outside the table and not mapped; the range test of \<open>merr_pack\<close> lets it
  through, and formatting \<open>merr_pack(EBUG, 0x4000, 10)\<close> faults in the \<open>strnlen\<close> of
  line 87.
\<close>

lemma merr_strinfo_outside_table_faults:
  "\<not> example_mapped 0x4000 \<and>
   merr_strinfo_mapped example_symbols example_mapped example_memory example_platform
     (merr_pack example_symbols EBUG 0x4000 10) (replicate 64 (CHR ''x'')) = Segfault"
  by code_simp

end
